theory Spec2Isabelle
  imports Main "HOL-Library.Sublist"
begin

section \<open>The scheduler shim \<^verbatim>\<open>run_main.sh\<close>\<close>

text \<open>
  The wrapper is a bash script. Its state is the shell's variables (with their export
  attribute), the files it appends to, and the programs it starts. Everything outside
  the script text (the file system, the \<^verbatim>\<open>date\<close> and \<^verbatim>\<open>python3\<close> programs, the
  sourced activation script) is a field of the record \<open>world\<close>; the builtins the script
  calls (\<^verbatim>\<open>read\<close>, \<^verbatim>\<open>export\<close>, \<^verbatim>\<open>echo -e\<close>) are modelled as bash 5 implements them.
\<close>

subsection \<open>Characters\<close>

abbreviation NL :: char where "NL \<equiv> CHR 0x0A"
abbreviation BSL :: char where "BSL \<equiv> CHR 0x5C"
abbreviation EQ :: char where "EQ \<equiv> CHR ''=''"

text \<open>The two characters backslash, n, as they stand in the script's double-quoted strings.\<close>

abbreviation bsn :: string where "bsn \<equiv> [BSL, CHR ''n'']"

definition is_upper :: "char \<Rightarrow> bool" where
  "is_upper c = (let n = (of_char c :: nat) in 65 \<le> n \<and> n \<le> 90)"

definition is_lower :: "char \<Rightarrow> bool" where
  "is_lower c = (let n = (of_char c :: nat) in 97 \<le> n \<and> n \<le> 122)"

definition is_digit :: "char \<Rightarrow> bool" where
  "is_digit c = (let n = (of_char c :: nat) in 48 \<le> n \<and> n \<le> 57)"

definition is_octal :: "char \<Rightarrow> bool" where
  "is_octal c = (let n = (of_char c :: nat) in 48 \<le> n \<and> n \<le> 55)"

definition is_xdigit :: "char \<Rightarrow> bool" where
  "is_xdigit c = (let n = (of_char c :: nat) in
     (48 \<le> n \<and> n \<le> 57) \<or> (65 \<le> n \<and> n \<le> 70) \<or> (97 \<le> n \<and> n \<le> 102))"

definition hexvalue :: "char \<Rightarrow> nat" where
  "hexvalue c = (let n = (of_char c :: nat) in
     if 97 \<le> n then n - 87 else if 65 \<le> n then n - 55 else n - 48)"

text \<open>The value of a run of digits in the given base, most significant digit first.\<close>

definition digits_value :: "nat \<Rightarrow> string \<Rightarrow> nat" where
  "digits_value base ds = foldl (\<lambda>acc c. acc * base + hexvalue c) 0 ds"

text \<open>How many of the first \<open>n\<close> characters of \<open>s\<close> form a run of digits.\<close>

definition digits_run :: "(char \<Rightarrow> bool) \<Rightarrow> nat \<Rightarrow> string \<Rightarrow> nat" where
  "digits_run p n s = length (takeWhile p (take n s))"

subsection \<open>Shell variables\<close>

record shell =
  vars :: "string \<rightharpoonup> string"
  exported :: "string set"

text \<open>\<^verbatim>\<open>$name\<close>: the value, or the empty string when the variable is unset.\<close>

definition expand :: "shell \<Rightarrow> string \<Rightarrow> string" where
  "expand sh name = (case vars sh name of None \<Rightarrow> [] | Some v \<Rightarrow> v)"

text \<open>\<^verbatim>\<open>name=value\<close>: a plain assignment keeps the export attribute as it is.\<close>

definition assign :: "string \<Rightarrow> string \<Rightarrow> shell \<Rightarrow> shell" where
  "assign name v sh = sh\<lparr>vars := (vars sh)(name \<mapsto> v)\<rparr>"

text \<open>What a child process receives: the variables that are set and exported.\<close>

definition environment :: "shell \<Rightarrow> (string \<rightharpoonup> string)" where
  "environment sh = (\<lambda>name. if name \<in> exported sh then vars sh name else None)"

subsection \<open>The \<^verbatim>\<open>read\<close> builtin with \<^verbatim>\<open>IFS='='\<close>\<close>

text \<open>
  \<^verbatim>\<open>get_word_from_string\<close> of bash: the word up to the next separator, and the input
  after that one separator. \<^verbatim>\<open>=\<close> is not IFS white space, so nothing is trimmed and
  two separators in a row delimit an empty word.
\<close>

definition get_word :: "string \<Rightarrow> string \<times> string" where
  "get_word s = (takeWhile (\<lambda>c. c \<noteq> EQ) s, drop 1 (dropWhile (\<lambda>c. c \<noteq> EQ) s))"

text \<open>
  \<^verbatim>\<open>IFS='=' read -r key value\<close> on one line (without its newline). \<^verbatim>\<open>read\<close> skips NUL
  bytes; \<^verbatim>\<open>-r\<close> leaves backslashes alone. \<open>key\<close> is the first word. \<open>value\<close> is the
  last variable: when what is left is exactly one word (possibly followed by one
  separator) it gets that word, otherwise it gets all that is left, separators included.
\<close>

definition read_key_value :: "string \<Rightarrow> string \<times> string" where
  "read_key_value line =
     (let s = filter (\<lambda>c. c \<noteq> CHR 0x00) line;
          (k, rest) = (if s = [] then ([], []) else get_word s);
          v = (if rest = [] then []
               else (let (t, rest') = get_word rest in if rest' = [] then t else rest))
      in (k, v))"

text \<open>The effect of one \<^verbatim>\<open>read\<close> on the shell: both variables are assigned.\<close>

definition read_into :: "string \<Rightarrow> shell \<Rightarrow> shell" where
  "read_into line sh =
     (let (k, v) = read_key_value line in assign ''value'' v (assign ''key'' k sh))"

subsection \<open>The \<^verbatim>\<open>export\<close> builtin\<close>

definition legal_variable_starter :: "char \<Rightarrow> bool" where
  "legal_variable_starter c = (is_upper c \<or> is_lower c \<or> c = CHR ''_'')"

definition legal_variable_char :: "char \<Rightarrow> bool" where
  "legal_variable_char c = (is_upper c \<or> is_lower c \<or> is_digit c \<or> c = CHR ''_'')"

definition legal_identifier :: "string \<Rightarrow> bool" where
  "legal_identifier name =
     (case name of [] \<Rightarrow> False
      | c # cs \<Rightarrow> legal_variable_starter c \<and> list_all legal_variable_char cs)"

text \<open>
  \<^verbatim>\<open>export "ARG"\<close>. With an \<^verbatim>\<open>=\<close> in \<open>ARG\<close> the text before the first \<^verbatim>\<open>=\<close> is the
  name, a trailing \<^verbatim>\<open>+\<close> on it asking for an append. A name that is not a legal
  identifier makes the builtin fail (``not a valid identifier'') and change nothing.
  Otherwise the variable is assigned, unless bash refuses the assignment (\<open>assignable\<close>
  is false for its readonly and no-assign variables such as \<^verbatim>\<open>UID\<close>), and in both cases
  gets the export attribute. The builtin's exit status is never looked at by the script.
\<close>

definition append_requested :: "string \<Rightarrow> bool" where
  "append_requested lhs = (lhs \<noteq> [] \<and> last lhs = CHR ''+'')"

definition export_name :: "string \<Rightarrow> string" where
  "export_name lhs = (if append_requested lhs then butlast lhs else lhs)"

definition export_builtin :: "(string \<Rightarrow> bool) \<Rightarrow> string \<Rightarrow> shell \<Rightarrow> shell" where
  "export_builtin assignable arg sh =
     (if EQ \<in> set arg then
        (let lhs = takeWhile (\<lambda>c. c \<noteq> EQ) arg;
             rhs = drop 1 (dropWhile (\<lambda>c. c \<noteq> EQ) arg);
             name = export_name lhs
         in if legal_identifier name then
              (let v = (if append_requested lhs then expand sh name @ rhs else rhs);
                   sh' = (if assignable name then assign name v sh else sh)
               in sh'\<lparr>exported := insert name (exported sh')\<rparr>)
            else sh)
      else if legal_identifier arg then sh\<lparr>exported := insert arg (exported sh)\<rparr>
      else sh)"

subsection \<open>The \<^verbatim>\<open>echo -e\<close> builtin\<close>

definition cons_out :: "string \<Rightarrow> string \<times> bool \<Rightarrow> string \<times> bool" where
  "cons_out xs r = (xs @ fst r, snd r)"

text \<open>
  \<^verbatim>\<open>ansicstr\<close> of bash in echo mode: the text with its backslash escapes replaced, and
  whether \<^verbatim>\<open>\c\<close> was met (which ends the output). \<open>u32\<close> is how the shell's locale
  renders a code point above 127 given as \<^verbatim>\<open>\u\<close> or \<^verbatim>\<open>\U\<close>. Octal escapes need the
  leading \<^verbatim>\<open>0\<close>; an escape that is not known keeps its backslash, and so does a
  backslash at the very end.
\<close>

fun ansicstr :: "(nat \<Rightarrow> string) \<Rightarrow> string \<Rightarrow> string \<times> bool" where
  "ansicstr u32 [] = ([], False)"
| "ansicstr u32 [c] = ([c], False)"
| "ansicstr u32 (c # d # s) =
     (if c \<noteq> BSL then cons_out [c] (ansicstr u32 (d # s))
      else if d = CHR ''a'' then cons_out [CHR 0x07] (ansicstr u32 s)
      else if d = CHR ''b'' then cons_out [CHR 0x08] (ansicstr u32 s)
      else if d = CHR ''c'' then ([], True)
      else if d = CHR ''e'' \<or> d = CHR ''E'' then cons_out [CHR 0x1B] (ansicstr u32 s)
      else if d = CHR ''f'' then cons_out [CHR 0x0C] (ansicstr u32 s)
      else if d = CHR ''n'' then cons_out [NL] (ansicstr u32 s)
      else if d = CHR ''r'' then cons_out [CHR 0x0D] (ansicstr u32 s)
      else if d = CHR ''t'' then cons_out [CHR 0x09] (ansicstr u32 s)
      else if d = CHR ''v'' then cons_out [CHR 0x0B] (ansicstr u32 s)
      else if d = CHR ''0'' then
        (let k = digits_run is_octal 3 s
         in cons_out [char_of (digits_value 8 (take k s))] (ansicstr u32 (drop k s)))
      else if d = CHR ''x'' then
        (let k = digits_run is_xdigit 2 s
         in if k = 0 then cons_out [BSL, d] (ansicstr u32 s)
            else cons_out [char_of (digits_value 16 (take k s))] (ansicstr u32 (drop k s)))
      else if d = CHR ''u'' \<or> d = CHR ''U'' then
        (let k = digits_run is_xdigit (if d = CHR ''u'' then 4 else 8) s;
             v = digits_value 16 (take k s)
         in if k = 0 then cons_out [BSL, d] (ansicstr u32 s)
            else if v \<le> 127 then cons_out [char_of v] (ansicstr u32 (drop k s))
            else cons_out (u32 v) (ansicstr u32 (drop k s)))
      else if d = BSL then cons_out [BSL] (ansicstr u32 s)
      else cons_out [BSL, d] (ansicstr u32 s))"

text \<open>\<^verbatim>\<open>echo -e "ARG"\<close>: the translated text, and a newline unless \<^verbatim>\<open>\c\<close> cut it short.\<close>

definition echo_e :: "(nat \<Rightarrow> string) \<Rightarrow> string \<Rightarrow> string" where
  "echo_e u32 arg = (case ansicstr u32 arg of (out, sawc) \<Rightarrow> if sawc then out else out @ [NL])"

subsection \<open>The world outside the script\<close>

datatype dotenv_file = NoFile | Unreadable | Content string

text \<open>
  What the script finds around it and cannot change. \<open>is_dir\<close>, \<open>is_file\<close> answer the
  tests \<^verbatim>\<open>[ -d ]\<close> and \<^verbatim>\<open>[ -f ]\<close>, \<open>chdir_ok\<close> whether \<^verbatim>\<open>cd\<close> succeeds, \<open>appendable\<close>
  whether a file can be opened by \<^verbatim>\<open>>>\<close>. \<open>dotenv\<close> is the file \<^verbatim>\<open>.env\<close> of the directory
  the script has moved to. \<open>activate\<close> is what sourcing the virtual environment's
  activation script does to the shell's variables. \<open>date_out utc n\<close> is what the
  \<open>n\<close>-th call of \<^verbatim>\<open>date\<close> prints (trailing newlines removed, as \<^verbatim>\<open>$(...)\<close> does), and
  \<open>python3 n path\<close> what the \<open>n\<close>-th started interpreter writes to its standard output
  and error, with its exit status.
\<close>

record world =
  is_dir :: "string \<Rightarrow> bool"
  chdir_ok :: "string \<Rightarrow> bool"
  is_file :: "string \<Rightarrow> bool"
  appendable :: "string \<Rightarrow> bool"
  dotenv :: dotenv_file
  activate :: "shell \<Rightarrow> shell"
  assignable :: "string \<Rightarrow> bool"
  u32cconv :: "nat \<Rightarrow> string"
  date_out :: "bool \<Rightarrow> nat \<Rightarrow> string"
  python3 :: "nat \<Rightarrow> string \<Rightarrow> string \<times> nat"

text \<open>
  What the script changes: its variables, the contents of files (the empty text for a
  file that does not exist yet), how often \<^verbatim>\<open>date\<close> has run, and the scripts handed to
  \<^verbatim>\<open>python3\<close> so far, oldest first. \<open>stdin\<close> is the unread input of the terminal or
  whatever else the scheduler connected to descriptor 0.
\<close>

record state =
  shell_of :: shell
  files :: "string \<Rightarrow> string"
  stdin :: string
  date_calls :: nat
  launched :: "string list"

definition set_var :: "string \<Rightarrow> string \<Rightarrow> state \<Rightarrow> state" where
  "set_var name v s = s\<lparr>shell_of := assign name v (shell_of s)\<rparr>"

definition var :: "state \<Rightarrow> string \<Rightarrow> string" where
  "var s name = expand (shell_of s) name"

text \<open>\<^verbatim>\<open>>> "$file"\<close>: the text goes to the end of the file, or nowhere when the file
  cannot be opened (the command is then not run and the script goes on).\<close>

definition append_file :: "world \<Rightarrow> string \<Rightarrow> string \<Rightarrow> state \<Rightarrow> state" where
  "append_file w path out s =
     (if appendable w path then s\<lparr>files := (files s)(path := files s path @ out)\<rparr> else s)"

text \<open>\<^verbatim>\<open>echo -e "ARG" >> "$CRON_LOG_FILE"\<close>\<close>

definition echo_log :: "world \<Rightarrow> string \<Rightarrow> state \<Rightarrow> state" where
  "echo_log w arg s = append_file w (var s ''CRON_LOG_FILE'') (echo_e (u32cconv w) arg) s"

text \<open>\<^verbatim>\<open>$(date ...)\<close>: local time, or UTC with \<^verbatim>\<open>-u\<close>. The substitution runs before the
  redirection of the command it stands in is tried.\<close>

definition date_sub :: "world \<Rightarrow> bool \<Rightarrow> state \<Rightarrow> string \<times> state" where
  "date_sub w utc s = (date_out w utc (date_calls s), s\<lparr>date_calls := Suc (date_calls s)\<rparr>)"

subsection \<open>The script, top to bottom\<close>

definition CODE_DIR :: string where
  "CODE_DIR = ''/Users/dishen/Documents/dishen/atliq/python/spotify-data-retrieval''"

definition dashes :: string where
  "dashes = ''---------------------------------------------''"

definition start_banner :: string where
  "start_banner = bsn @ bsn @ bsn @ dashes @ '' CRON START LOGS '' @ dashes @ bsn"

definition script_banner :: string where
  "script_banner = bsn @ bsn @ bsn @ '' '' @ dashes @ '' CRON START LOGS '' @ dashes @ bsn"

definition end_banner :: string where
  "end_banner = bsn @ dashes @ '' CRON END LOGS '' @ dashes @ '' '' @ bsn @ bsn @ bsn"

text \<open>
  The body of the \<^verbatim>\<open>while\<close> loop: \<^verbatim>\<open>export "$key=$value"\<close>, run when \<^verbatim>\<open>$key\<close> does not
  match the pattern \<^verbatim>\<open>^#\<close> and is not empty.
\<close>

definition env_body :: "world \<Rightarrow> shell \<Rightarrow> shell" where
  "env_body w sh =
     (let key = expand sh ''key''; value = expand sh ''value''
      in if \<not> (key \<noteq> [] \<and> hd key = CHR ''#'') \<and> key \<noteq> []
         then export_builtin (assignable w) (key @ [EQ] @ value) sh
         else sh)"

text \<open>One full round of the loop on a line that ended in a newline: a successful
  \<^verbatim>\<open>read\<close>, then the body.\<close>

definition env_line :: "world \<Rightarrow> string \<Rightarrow> shell \<Rightarrow> shell" where
  "env_line w line sh = env_body w (read_into line sh)"

text \<open>
  \<^verbatim>\<open>while IFS='=' read -r key value; do ... done < .env\<close>, reading the file character by
  character as \<^verbatim>\<open>read\<close> does: \<open>cur\<close> is the part of the current line read so far. At a
  newline \<^verbatim>\<open>read\<close> assigns both variables and succeeds, and the body runs. At the end
  of the file \<^verbatim>\<open>read\<close> assigns what it has and fails, which ends the loop: text after
  the last newline reaches the variables but not the body.
\<close>

fun env_loop :: "world \<Rightarrow> string \<Rightarrow> string \<Rightarrow> shell \<Rightarrow> shell" where
  "env_loop w cur [] sh = read_into cur sh"
| "env_loop w cur (c # cs) sh =
     (if c = NL then env_loop w [] cs (env_line w cur sh)
      else env_loop w (cur @ [c]) cs sh)"

text \<open>\<^verbatim>\<open>python3 "$script_path" >> "$CRON_LOG_FILE" 2>&1\<close>\<close>

definition python_step :: "world \<Rightarrow> string \<Rightarrow> state \<Rightarrow> state" where
  "python_step w path s =
     (if appendable w (var s ''CRON_LOG_FILE'')
      then (let out = fst (python3 w (length (launched s)) path);
                s' = append_file w (var s ''CRON_LOG_FILE'') out s
            in s'\<lparr>launched := launched s @ [path]\<rparr>)
      else s)"

text \<open>One round of the \<^verbatim>\<open>for\<close> loop.\<close>

definition run_script :: "world \<Rightarrow> string \<Rightarrow> state \<Rightarrow> state" where
  "run_script w script s =
     (let s1 = set_var ''script'' script s;
          s2 = set_var ''script_path'' (var s1 ''CODE_DIR'' @ ''/'' @ var s1 ''script'') s1
      in if is_file w (var s2 ''script_path'') then
           (let s3 = echo_log w (''Running python file: '' @ var s2 ''script_path'') s2;
                s4 = echo_log w script_banner s3;
                (d1, s5) = date_sub w True s4;
                s6 = echo_log w (bsn @ bsn @ d1 @ '' - Starting '' @ var s5 ''script'') s5;
                s7 = python_step w (var s6 ''script_path'') s6;
                (d2, s8) = date_sub w True s7;
                s9 = echo_log w (bsn @ bsn @ d2 @ '' - Finished '' @ var s8 ''script'') s8
            in echo_log w end_banner s9)
         else echo_log w (bsn @ bsn @ '' Script '' @ var s2 ''script_path'' @ '' not found!'') s2)"

fun for_loop :: "world \<Rightarrow> string list \<Rightarrow> state \<Rightarrow> state" where
  "for_loop w [] s = s"
| "for_loop w (script # rest) s = for_loop w rest (run_script w script s)"

text \<open>
  \<^verbatim>\<open>scripts_to_run+=("main.py")\<close> appends to whatever the variable holds: the script
  never initialises it, so a value that came with the environment or from \<^verbatim>\<open>.env\<close>
  becomes the first element of the array.
\<close>

definition scripts_to_run :: "state \<Rightarrow> string list" where
  "scripts_to_run s =
     (case vars (shell_of s) ''scripts_to_run'' of None \<Rightarrow> [] | Some v \<Rightarrow> [v]) @ [''main.py'']"

text \<open>
  From the \<^verbatim>\<open>declare -A scripts\<close> line to the end. The associative array is never read
  and is left out. The exit status of the script is that of its last command, the
  final \<^verbatim>\<open>echo\<close>: 0 when the log could be opened, 1 when not.
\<close>

definition run_scripts :: "world \<Rightarrow> state \<Rightarrow> state \<times> nat" where
  "run_scripts w s =
     (let s1 = for_loop w (scripts_to_run s) s;
          (d, s2) = date_sub w True s1;
          s3 = echo_log w (bsn @ bsn @ d @ '' - Finished run_main.sh'') s2
      in (echo_log w end_banner s3,
          if appendable w (var s3 ''CRON_LOG_FILE'') then 0 else 1))"

text \<open>From \<^verbatim>\<open>if [ -f .env ]\<close> on. A file that exists but cannot be opened makes the
  redirection, and with it the whole loop, fail; the script goes on.\<close>

definition load_env :: "world \<Rightarrow> state \<Rightarrow> state \<times> nat" where
  "load_env w s =
     (case dotenv w of
        NoFile \<Rightarrow>
          (echo_log w (bsn @ bsn @ ''.env file not found in '' @ var s ''CODE_DIR'' @ ''!'') s, 1)
      | Unreadable \<Rightarrow> run_scripts w s
      | Content text \<Rightarrow> run_scripts w (s\<lparr>shell_of := env_loop w [] text (shell_of s)\<rparr>))"

text \<open>From the start marker to the activation of the virtual environment.\<close>

definition activate_venv :: "world \<Rightarrow> state \<Rightarrow> state \<times> nat" where
  "activate_venv w s =
     (let (d, s1) = date_sub w False s;
          s2 = echo_log w (bsn @ bsn @ d @ '' - Starting run_main.sh'') s1;
          s3 = set_var ''PYTHON_VENV'' (var s2 ''CODE_DIR'' @ ''/venv/bin/activate'') s2
      in if is_file w (var s3 ''PYTHON_VENV'') then
           (let s4 = echo_log w
                  (bsn @ bsn @ ''Activating virtual environment: '' @ var s3 ''PYTHON_VENV'') s3
            in load_env w (s4\<lparr>shell_of := activate w (shell_of s4)\<rparr>))
         else
           (echo_log w (bsn @ bsn @ ''Virtual environment activation script not found at ''
              @ var s3 ''PYTHON_VENV'' @ ''!'') s3, 1))"

text \<open>
  The whole script: the final state and the exit status. \<^verbatim>\<open>cd\<close> also sets \<^verbatim>\<open>PWD\<close> and
  \<^verbatim>\<open>OLDPWD\<close>, which the script never reads; that is left out.
\<close>

definition run_main :: "world \<Rightarrow> state \<Rightarrow> state \<times> nat" where
  "run_main w s0 =
     (let s1 = set_var ''CODE_DIR'' CODE_DIR s0;
          s2 = set_var ''CRON_LOG_FILE'' (var s1 ''CODE_DIR'' @ ''/run_main.log'') s1;
          s3 = echo_log w start_banner s2
      in if is_dir w (var s3 ''CODE_DIR'') then
           (if chdir_ok w (var s3 ''CODE_DIR'') then activate_venv w s3
            else (echo_log w (bsn @ bsn @ ''Failed to navigate to '' @ var s3 ''CODE_DIR'') s3, 1))
         else (echo_log w (''Directory '' @ var s3 ''CODE_DIR'' @ '' does not exist!'') s3, 1))"

subsection \<open>What the log is expected to show\<close>

text \<open>The log file the script sets up in its second line.\<close>

definition log_file :: string where
  "log_file = CODE_DIR @ ''/run_main.log''"

text \<open>The two timestamped markers of an invocation, as they appear in the log: what
  \<^verbatim>\<open>echo -e "\n\n<time> - Starting run_main.sh"\<close> and its counterpart at the end print.\<close>

definition start_marker :: "string \<Rightarrow> string" where
  "start_marker d = [NL, NL] @ d @ '' - Starting run_main.sh'' @ [NL]"

definition end_marker :: "string \<Rightarrow> string" where
  "end_marker d = [NL, NL] @ d @ '' - Finished run_main.sh'' @ [NL]"

subsection \<open>Sample invocations\<close>

text \<open>A freshly started shell with nothing inherited, an empty log and no input.\<close>

definition fresh :: state where
  "fresh = \<lparr>shell_of = \<lparr>vars = Map.empty, exported = {}\<rparr>, files = (\<lambda>_. []), stdin = [],
            date_calls = 0, launched = []\<rparr>"

text \<open>An installation where everything is in place: the directory, the virtual
  environment, \<^verbatim>\<open>main.py\<close>, a \<^verbatim>\<open>.env\<close> of one line; \<^verbatim>\<open>main.py\<close> prints a line and
  succeeds.\<close>

definition installed :: world where
  "installed =
     \<lparr>is_dir = (\<lambda>p. p = CODE_DIR), chdir_ok = (\<lambda>p. p = CODE_DIR),
      is_file = (\<lambda>p. p = CODE_DIR @ ''/venv/bin/activate'' \<or> p = CODE_DIR @ ''/main.py''),
      appendable = (\<lambda>p. p = log_file),
      dotenv = Content (''SCHEMA_NAME=spotify_data'' @ [NL]),
      activate = (\<lambda>sh. sh), assignable = (\<lambda>name. name \<noteq> ''UID''), u32cconv = (\<lambda>n. []),
      date_out = (\<lambda>utc n. if utc then ''2026-01-01 00:00:00'' else ''2026-01-01 05:30:00''),
      python3 = (\<lambda>n path. (''done'' @ [NL], 0))\<rparr>"

text \<open>The same installation with a pipeline that fails (an expired token, say).\<close>

definition failing_pipeline :: world where
  "failing_pipeline = installed\<lparr>python3 := (\<lambda>n path. (''AuthError'' @ [NL], 1))\<rparr>"

text \<open>... without its \<^verbatim>\<open>.env\<close> ...\<close>

definition no_dotenv :: world where
  "no_dotenv = installed\<lparr>dotenv := NoFile\<rparr>"

text \<open>... without its virtual environment ...\<close>

definition no_venv :: world where
  "no_venv = installed\<lparr>is_file := (\<lambda>p. p = CODE_DIR @ ''/main.py'')\<rparr>"

text \<open>... and with a \<^verbatim>\<open>.env\<close> that happens to define a variable named like the
  script's array.\<close>

definition preset_list :: world where
  "preset_list = installed\<lparr>dotenv := Content (''scripts_to_run=main.py'' @ [NL])\<rparr>"

section \<open>The read side: \<^verbatim>\<open>visualization/common.ipynb\<close>\<close>

text \<open>
  Python strings are sequences of code points. An exception is its class name and its
  message; the two constructors tell the classes below \<^verbatim>\<open>Exception\<close>, which
  \<^verbatim>\<open>except Exception\<close> catches, from the rest of \<^verbatim>\<open>BaseException\<close>
  (\<^verbatim>\<open>KeyboardInterrupt\<close>, \<^verbatim>\<open>SystemExit\<close>), which it lets through.
\<close>

type_synonym pystr = "nat list"

definition py :: "string \<Rightarrow> pystr" where
  "py s = map of_char s"

datatype exc = Exception string pystr | BaseException string pystr

text \<open>The code points \<^verbatim>\<open>str.strip()\<close> removes: Python's Unicode white space.\<close>

definition py_isspace :: "nat \<Rightarrow> bool" where
  "py_isspace c =
     ((9 \<le> c \<and> c \<le> 13) \<or> (28 \<le> c \<and> c \<le> 32) \<or> c = 133 \<or> c = 160 \<or> c = 5760
      \<or> (8192 \<le> c \<and> c \<le> 8202) \<or> c = 8232 \<or> c = 8233 \<or> c = 8239 \<or> c = 8287 \<or> c = 12288)"

definition strip :: "pystr \<Rightarrow> pystr" where
  "strip s = rev (dropWhile py_isspace (rev (dropWhile py_isspace s)))"

datatype engine = Engine pystr
datatype connection = Connection engine
datatype dataframe = DataFrame "pystr list" "pystr list list"

text \<open>
  The libraries and the database behind them: whether \<^verbatim>\<open>create_engine\<close> accepts a URL,
  whether \<^verbatim>\<open>engine.connect()\<close> gets a connection, what \<^verbatim>\<open>pd.read_sql_query\<close> returns
  for a query, and whether closing the connection at the end of the \<^verbatim>\<open>with\<close> block
  raises.
\<close>

record database =
  create_engine :: "pystr \<Rightarrow> exc + engine"
  connect :: "engine \<Rightarrow> exc + connection"
  read_sql_query :: "pystr \<Rightarrow> connection \<Rightarrow> exc + dataframe"
  close :: "connection \<Rightarrow> exc option"

text \<open>The notebook's global names, unbound until a cell assigns them.\<close>

record kernel =
  g_DATABASE_URL :: "pystr option"
  g_schema_name :: "pystr option"
  g_engine :: "engine option"

definition fresh_kernel :: kernel where
  "fresh_kernel = \<lparr>g_DATABASE_URL = None, g_schema_name = None, g_engine = None\<rparr>"

text \<open>\<^verbatim>\<open>os.getenv(name).strip()\<close>: \<^verbatim>\<open>os.getenv\<close> gives \<^verbatim>\<open>None\<close> for a variable that is not
  set, and \<^verbatim>\<open>None\<close> has no \<^verbatim>\<open>strip\<close>.\<close>

definition no_strip :: exc where
  "no_strip = Exception ''AttributeError''
     ([39] @ py ''NoneType'' @ [39] @ py '' object has no attribute '' @ [39] @ py ''strip'' @ [39])"

definition getenv_strip :: "(string \<rightharpoonup> pystr) \<Rightarrow> string \<Rightarrow> exc + pystr" where
  "getenv_strip environ name =
     (case environ name of None \<Rightarrow> Inl no_strip | Some v \<Rightarrow> Inr (strip v))"

text \<open>
  The set-up cell:
  \<^verbatim>\<open>DATABASE_URL = os.getenv("DATABASE_URL").strip()\<close>,
  \<^verbatim>\<open>schema_name = os.getenv("SCHEMA_NAME").strip()\<close>,
  \<^verbatim>\<open>engine = create_engine(DATABASE_URL)\<close>.
  A statement that raises ends the cell; the names bound before it stay bound.
\<close>

definition setup_cell :: "database \<Rightarrow> (string \<rightharpoonup> pystr) \<Rightarrow> kernel \<Rightarrow> exc option \<times> kernel" where
  "setup_cell db environ k =
     (case getenv_strip environ ''DATABASE_URL'' of
        Inl e \<Rightarrow> (Some e, k)
      | Inr url \<Rightarrow>
          (let k1 = k\<lparr>g_DATABASE_URL := Some url\<rparr>
           in case getenv_strip environ ''SCHEMA_NAME'' of
                Inl e \<Rightarrow> (Some e, k1)
              | Inr name \<Rightarrow>
                  (let k2 = k1\<lparr>g_schema_name := Some name\<rparr>
                   in case create_engine db url of
                        Inl e \<Rightarrow> (Some e, k2)
                      | Inr eng \<Rightarrow> (None, k2\<lparr>g_engine := Some eng\<rparr>))))"

text \<open>
  What one call of \<^verbatim>\<open>__execute_sql_query\<close> does: what it returns or lets escape, the
  lines it prints, and the queries it sent to the database.
\<close>

record call =
  returned :: "exc + dataframe"
  printed :: "pystr list"
  queries :: "pystr list"

definition name_error :: exc where
  "name_error = Exception ''NameError''
     (py ''name '' @ [39] @ py ''engine'' @ [39] @ py '' is not defined'')"

text \<open>
  The \<^verbatim>\<open>try\<close> block. \<^verbatim>\<open>engine\<close> is a global: unbound, it raises \<^verbatim>\<open>NameError\<close>. The
  \<^verbatim>\<open>with\<close> statement closes the connection whether the query returned or raised; an
  exception from closing replaces the one under way.
\<close>

definition try_block :: "database \<Rightarrow> kernel \<Rightarrow> pystr \<Rightarrow> (exc + dataframe) \<times> pystr list" where
  "try_block db k query =
     (case g_engine k of
        None \<Rightarrow> (Inl name_error, [])
      | Some eng \<Rightarrow>
          (case connect db eng of
             Inl e \<Rightarrow> (Inl e, [])
           | Inr connection \<Rightarrow>
               (let df = read_sql_query db query connection
                in case close db connection of
                     Some e \<Rightarrow> (Inl e, [query])
                   | None \<Rightarrow> (df, [query]))))"

text \<open>The warning sign and its variation selector that start the printed line.\<close>

definition warning_prefix :: pystr where
  "warning_prefix = [9888, 65039] @ py '' Error executing SQL query: ''"

definition execute_sql_query :: "database \<Rightarrow> kernel \<Rightarrow> pystr \<Rightarrow> call" where
  "execute_sql_query db k query =
     (case try_block db k query of
        (Inr df, sent) \<Rightarrow> \<lparr>returned = Inr df, printed = [], queries = sent\<rparr>
      | (Inl (Exception cls msg), sent) \<Rightarrow>
          \<lparr>returned = Inr (DataFrame [] []), printed = [warning_prefix @ msg], queries = sent\<rparr>
      | (Inl (BaseException cls msg), sent) \<Rightarrow>
          \<lparr>returned = Inl (BaseException cls msg), printed = [], queries = sent\<rparr>)"

subsection \<open>Sample databases\<close>

definition plays :: dataframe where
  "plays = DataFrame [py ''track_name''] ([py ''Song A''] # [py ''Song B''] # [])"

definition db_up :: database where
  "db_up = \<lparr>create_engine = (\<lambda>url. Inr (Engine url)), connect = (\<lambda>e. Inr (Connection e)),
            read_sql_query = (\<lambda>q c. Inr plays), close = (\<lambda>c. None)\<rparr>"

definition db_down :: database where
  "db_down = db_up\<lparr>connect := (\<lambda>e. Inl (Exception ''OperationalError'' (py ''connection refused'')))\<rparr>"

definition db_bad_query :: database where
  "db_bad_query =
     db_up\<lparr>read_sql_query := (\<lambda>q c. Inl (Exception ''ProgrammingError'' (py ''syntax error'')))\<rparr>"

definition bound_kernel :: kernel where
  "bound_kernel = \<lparr>g_DATABASE_URL = Some (py ''postgresql://db''),
                   g_schema_name = Some (py ''spotify_data''),
                   g_engine = Some (Engine (py ''postgresql://db''))\<rparr>"

section \<open>The Loader\<close>

text \<open>
  Modelled from the spec: the pipeline script \<^verbatim>\<open>main.py\<close> and with it the Loader are
  not among the sources. Section 3 gives the Play Event and its key, section 4.3 the
  Loader: each event is inserted by an operation that is a no-op if the
  (played_at, track_id) pair already exists, the rows newly inserted and skipped are
  counted, and a connection failure aborts the run.
\<close>

record play_event =
  played_at :: string
  track_id :: string
  track_name :: string
  artist_names :: string
  album_name :: string
  duration_ms :: int

definition event_key :: "play_event \<Rightarrow> string \<times> string" where
  "event_key e = (played_at e, track_id e)"

record load_report =
  table :: "play_event list"
  inserted :: nat
  skipped :: nat

datatype load_error = ConnectionFailure

text \<open>Modelled from the spec: insert-or-ignore of one Play Event (section 4.3).\<close>

definition insert_or_ignore :: "load_report \<Rightarrow> play_event \<Rightarrow> load_report" where
  "insert_or_ignore r e =
     (if event_key e \<in> set (map event_key (table r))
      then r\<lparr>skipped := Suc (skipped r)\<rparr>
      else r\<lparr>table := table r @ [e], inserted := Suc (inserted r)\<rparr>)"

text \<open>Modelled from the spec: the Loader on a sequence of Play Events (section 4.3).\<close>

definition loader :: "bool \<Rightarrow> play_event list \<Rightarrow> play_event list \<Rightarrow> load_error + load_report" where
  "loader connected events rows =
     (if connected
      then Inr (foldl insert_or_ignore \<lparr>table = rows, inserted = 0, skipped = 0\<rparr> events)
      else Inl ConnectionFailure)"

definition play :: "string \<Rightarrow> string \<Rightarrow> play_event" where
  "play at tid = \<lparr>played_at = at, track_id = tid, track_name = ''Song'', artist_names = ''Artist'',
                  album_name = ''Album'', duration_ms = 180000\<rparr>"

section \<open>Proofs about the wrapper\<close>

subsection \<open>What each command leaves alone\<close>

lemma echo_log_fields [simp]:
  "shell_of (echo_log w a s) = shell_of s" "stdin (echo_log w a s) = stdin s"
  "date_calls (echo_log w a s) = date_calls s" "launched (echo_log w a s) = launched s"
  "var (echo_log w a s) n = var s n"
  by (simp_all add: echo_log_def append_file_def var_def)

lemma echo_log_files:
  "files (echo_log w a s) p =
     files s p @ (if p = var s ''CRON_LOG_FILE'' \<and> appendable w p then echo_e (u32cconv w) a else [])"
  by (auto simp: echo_log_def append_file_def)

lemma set_var_fields [simp]:
  "files (set_var n v s) = files s" "stdin (set_var n v s) = stdin s"
  "date_calls (set_var n v s) = date_calls s" "launched (set_var n v s) = launched s"
  "var (set_var n v s) m = (if m = n then v else var s m)"
  by (simp_all add: set_var_def var_def assign_def expand_def)

lemma date_sub_fields [simp]:
  "shell_of (snd (date_sub w u s)) = shell_of s" "stdin (snd (date_sub w u s)) = stdin s"
  "files (snd (date_sub w u s)) = files s" "launched (snd (date_sub w u s)) = launched s"
  "var (snd (date_sub w u s)) n = var s n"
  "date_calls (snd (date_sub w u s)) = Suc (date_calls s)"
  "fst (date_sub w u s) = date_out w u (date_calls s)"
  by (simp_all add: date_sub_def var_def)

lemma python_step_fields [simp]:
  "shell_of (python_step w p s) = shell_of s" "stdin (python_step w p s) = stdin s"
  "date_calls (python_step w p s) = date_calls s" "var (python_step w p s) n = var s n"
  by (simp_all add: python_step_def append_file_def var_def Let_def)

lemma python_step_launched:
  "launched (python_step w p s) =
     launched s @ (if appendable w (var s ''CRON_LOG_FILE'') then [p] else [])"
  by (simp add: python_step_def append_file_def Let_def)

lemma python_step_files:
  "files (python_step w p s) q =
     files s q @ (if q = var s ''CRON_LOG_FILE'' \<and> appendable w q
                  then fst (python3 w (length (launched s)) p) else [])"
  by (auto simp: python_step_def append_file_def Let_def)

lemma run_script_fields [simp]:
  "stdin (run_script w x s) = stdin s"
  "var (run_script w x s) ''CRON_LOG_FILE'' = var s ''CRON_LOG_FILE''"
  "var (run_script w x s) ''CODE_DIR'' = var s ''CODE_DIR''"
  by (simp_all add: run_script_def Let_def split_def)

lemma run_script_launched:
  "launched (run_script w x s) =
     launched s @ (if is_file w (var s ''CODE_DIR'' @ ''/'' @ x) \<and> appendable w (var s ''CRON_LOG_FILE'')
                   then [var s ''CODE_DIR'' @ ''/'' @ x] else [])"
  by (simp add: run_script_def Let_def split_def python_step_launched)

lemma run_script_prefix: "prefix (files s p) (files (run_script w x s) p)"
  by (simp add: run_script_def Let_def split_def echo_log_files python_step_files)


lemma for_loop_fields [simp]:
  "stdin (for_loop w xs s) = stdin s"
  "var (for_loop w xs s) ''CRON_LOG_FILE'' = var s ''CRON_LOG_FILE''"
  "var (for_loop w xs s) ''CODE_DIR'' = var s ''CODE_DIR''"
  by (induction xs arbitrary: s) simp_all

lemma for_loop_prefix: "prefix (files s p) (files (for_loop w xs s) p)"
proof (induction xs arbitrary: s)
  case Nil
  show ?case by simp
next
  case (Cons x xs)
  have "prefix (files s p) (files (run_script w x s) p)" by (rule run_script_prefix)
  also have "prefix (files (run_script w x s) p) (files (for_loop w xs (run_script w x s)) p)"
    by (rule Cons.IH)
  finally show ?case by simp
qed

lemma for_loop_launched:
  "launched (for_loop w xs s) =
     launched s @ (if appendable w (var s ''CRON_LOG_FILE'')
                   then filter (is_file w) (map (\<lambda>x. var s ''CODE_DIR'' @ ''/'' @ x) xs) else [])"
  by (induction xs arbitrary: s) (simp_all add: run_script_launched)

lemma run_scripts_fields [simp]:
  "stdin (fst (run_scripts w s)) = stdin s"
  "var (fst (run_scripts w s)) ''CRON_LOG_FILE'' = var s ''CRON_LOG_FILE''"
  "var (fst (run_scripts w s)) ''CODE_DIR'' = var s ''CODE_DIR''"
  "launched (fst (run_scripts w s)) = launched (for_loop w (scripts_to_run s) s)"
  by (simp_all add: run_scripts_def Let_def split_def)

lemma run_scripts_status:
  "snd (run_scripts w s) = (if appendable w (var s ''CRON_LOG_FILE'') then 0 else 1)"
  by (simp add: run_scripts_def Let_def split_def)

lemma run_scripts_prefix: "prefix (files s p) (files (fst (run_scripts w s)) p)"
proof -
  have "prefix (files s p) (files (for_loop w (scripts_to_run s) s) p)"
    by (rule for_loop_prefix)
  also have "prefix (files (for_loop w (scripts_to_run s) s) p) (files (fst (run_scripts w s)) p)"
    by (simp add: run_scripts_def Let_def split_def echo_log_files)
  finally show ?thesis .
qed


lemma upd_shell_fields [simp]:
  "var (s\<lparr>shell_of := x\<rparr>) n = expand x n"
  by (simp add: var_def)

lemma load_env_stdin [simp]: "stdin (fst (load_env w s)) = stdin s"
  by (simp add: load_env_def split: dotenv_file.splits)

lemma load_env_prefix: "prefix (files s p) (files (fst (load_env w s)) p)"
proof (cases "dotenv w")
  case NoFile
  then show ?thesis by (simp add: load_env_def echo_log_files)
next
  case Unreadable
  then show ?thesis by (simp add: load_env_def run_scripts_prefix)
next
  case (Content t)
  have "prefix (files (s\<lparr>shell_of := env_loop w [] t (shell_of s)\<rparr>) p)
          (files (fst (run_scripts w (s\<lparr>shell_of := env_loop w [] t (shell_of s)\<rparr>))) p)"
    by (rule run_scripts_prefix)
  with Content show ?thesis by (simp add: load_env_def)
qed

lemma load_env_status:
  "snd (load_env w s) =
     (if dotenv w \<noteq> NoFile \<and> appendable w (var (fst (load_env w s)) ''CRON_LOG_FILE'')
      then 0 else 1)"
  by (simp add: load_env_def run_scripts_status split: dotenv_file.splits)

lemma load_env_NoFile:
  "dotenv w = NoFile \<Longrightarrow> launched (fst (load_env w s)) = launched s"
  by (simp add: load_env_def)

lemma activate_venv_stdin [simp]: "stdin (fst (activate_venv w s)) = stdin s"
  by (simp add: activate_venv_def Let_def split_def)

lemma activate_venv_prefix: "prefix (files s p) (files (fst (activate_venv w s)) p)"
proof -
  let ?s2 = "echo_log w (bsn @ bsn @ fst (date_sub w False s) @ '' - Starting run_main.sh'')
               (snd (date_sub w False s))"
  let ?s3 = "set_var ''PYTHON_VENV'' (var ?s2 ''CODE_DIR'' @ ''/venv/bin/activate'') ?s2"
  have a: "prefix (files s p) (files ?s3 p)" by (simp add: echo_log_files)
  show ?thesis
  proof (cases "is_file w (var ?s3 ''PYTHON_VENV'')")
    case False
    then show ?thesis by (simp add: activate_venv_def Let_def split_def echo_log_files)
  next
    case True
    let ?s4 = "echo_log w (bsn @ bsn @ ''Activating virtual environment: '' @ var ?s3 ''PYTHON_VENV'') ?s3"
    let ?s5 = "?s4\<lparr>shell_of := activate w (shell_of ?s4)\<rparr>"
    have "prefix (files s p) (files ?s5 p)" by (simp add: echo_log_files)
    also have "prefix (files ?s5 p) (files (fst (load_env w ?s5)) p)" by (rule load_env_prefix)
    finally show ?thesis using True by (simp add: activate_venv_def Let_def split_def)
  qed
qed

lemma activate_venv_status:
  "snd (activate_venv w s) =
     (if is_file w (var s ''CODE_DIR'' @ ''/venv/bin/activate'') \<and> dotenv w \<noteq> NoFile
         \<and> appendable w (var (fst (activate_venv w s)) ''CRON_LOG_FILE'')
      then 0 else 1)"
  by (simp add: activate_venv_def Let_def split_def load_env_status)

lemma activate_venv_NoFile:
  "dotenv w = NoFile \<Longrightarrow> launched (fst (activate_venv w s)) = launched s"
  by (simp add: activate_venv_def Let_def split_def load_env_NoFile)

lemma run_main_status:
  "snd (run_main w s) =
     (if is_dir w CODE_DIR \<and> chdir_ok w CODE_DIR \<and> is_file w (CODE_DIR @ ''/venv/bin/activate'')
         \<and> dotenv w \<noteq> NoFile
         \<and> appendable w (var (fst (run_main w s)) ''CRON_LOG_FILE'')
      then 0 else 1)"
  by (simp add: run_main_def Let_def activate_venv_status)

lemma run_main_NoFile:
  "dotenv w = NoFile \<Longrightarrow> launched (fst (run_main w s)) = launched s"
  by (simp add: run_main_def Let_def activate_venv_NoFile)

lemma run_main_stdin: "stdin (fst (run_main w s)) = stdin s"
  by (simp add: run_main_def Let_def)

lemma run_main_prefix: "prefix (files s p) (files (fst (run_main w s)) p)"
proof -
  let ?s2 = "set_var ''CRON_LOG_FILE'' (var (set_var ''CODE_DIR'' CODE_DIR s) ''CODE_DIR'' @ ''/run_main.log'')
               (set_var ''CODE_DIR'' CODE_DIR s)"
  let ?s3 = "echo_log w start_banner ?s2"
  have a: "prefix (files s p) (files ?s3 p)" by (simp add: echo_log_files)
  have b: "prefix (files ?s3 p) (files (fst (activate_venv w ?s3)) p)"
    by (rule activate_venv_prefix)
  have c: "prefix (files ?s3 p) (files (echo_log w x ?s3) p)" for x
    by (simp add: echo_log_files)
  show ?thesis
    using prefix_order.trans [OF a b] prefix_order.trans [OF a c]
    by (simp add: run_main_def Let_def)
qed

subsection \<open>Evaluating the sample invocations\<close>

lemmas char_class_defs =
  is_upper_def is_lower_def is_digit_def legal_variable_starter_def legal_variable_char_def
  legal_identifier_def append_requested_def export_name_def

lemmas builtin_defs =
  read_into_def read_key_value_def get_word_def env_line_def env_body_def export_builtin_def
  assign_def expand_def

lemmas script_defs = run_main_def activate_venv_def load_env_def Let_def split_def log_file_def

lemma set_var_shell [simp]: "shell_of (set_var n v s) = assign n v (shell_of s)"
  by (simp add: set_var_def)

lemma fresh_fields [simp]:
  "vars (shell_of fresh) = Map.empty" "exported (shell_of fresh) = {}" "files fresh p = []"
  "stdin fresh = []" "date_calls fresh = 0" "launched fresh = []"
  by (simp_all add: fresh_def)

lemma var_fresh [simp]: "var fresh n = []"
  by (simp add: var_def expand_def)

lemma installed_fields [simp]:
  "is_dir installed p = (p = CODE_DIR)" "chdir_ok installed p = (p = CODE_DIR)"
  "is_file installed p = (p = CODE_DIR @ ''/venv/bin/activate'' \<or> p = CODE_DIR @ ''/main.py'')"
  "appendable installed p = (p = log_file)"
  "dotenv installed = Content (''SCHEMA_NAME=spotify_data'' @ [NL])"
  "activate installed sh = sh" "assignable installed n = (n \<noteq> ''UID'')"
  by (simp_all add: installed_def)

lemma failing_pipeline_fields [simp]:
  "is_dir failing_pipeline p = (p = CODE_DIR)" "chdir_ok failing_pipeline p = (p = CODE_DIR)"
  "is_file failing_pipeline p = (p = CODE_DIR @ ''/venv/bin/activate'' \<or> p = CODE_DIR @ ''/main.py'')"
  "appendable failing_pipeline p = (p = log_file)"
  "dotenv failing_pipeline = Content (''SCHEMA_NAME=spotify_data'' @ [NL])"
  "activate failing_pipeline sh = sh" "assignable failing_pipeline n = (n \<noteq> ''UID'')"
  "python3 failing_pipeline k p = (''AuthError'' @ [NL], 1)"
  by (simp_all add: failing_pipeline_def installed_def)

lemma preset_list_fields [simp]:
  "is_dir preset_list p = (p = CODE_DIR)" "chdir_ok preset_list p = (p = CODE_DIR)"
  "is_file preset_list p = (p = CODE_DIR @ ''/venv/bin/activate'' \<or> p = CODE_DIR @ ''/main.py'')"
  "appendable preset_list p = (p = log_file)"
  "dotenv preset_list = Content (''scripts_to_run=main.py'' @ [NL])"
  "activate preset_list sh = sh" "assignable preset_list n = (n \<noteq> ''UID'')"
  by (simp_all add: preset_list_def installed_def)

lemma log_var_installed:
  "var (fst (run_main installed fresh)) ''CRON_LOG_FILE'' = log_file"
  by (simp add: script_defs builtin_defs char_class_defs)

subsection \<open>The log only grows\<close>

text \<open>
  Claim C5. Every write of the wrapper is an append: whatever a file held before an
  invocation is a prefix of what it holds afterwards (this holds for the log and for
  every other file), and the wrapper consumes nothing of its standard input: its one
  \<^verbatim>\<open>read\<close> takes its lines from \<^verbatim>\<open>.env\<close>.
\<close>

theorem log_append_only:
  "prefix (files s p) (files (fst (run_main w s)) p) \<and> stdin (fst (run_main w s)) = stdin s"
  by (simp add: run_main_prefix run_main_stdin)

subsection \<open>A missing \<^verbatim>\<open>.env\<close>\<close>

text \<open>
  Claim C3. When the file \<^verbatim>\<open>.env\<close> does not exist, the wrapper ends with exit status 1
  and has not started \<^verbatim>\<open>python3\<close>: the list of started scripts is what it was. The
  pipeline script is the only part of an invocation that could reach the network.
\<close>

theorem missing_dotenv_is_fatal:
  "dotenv w = NoFile \<Longrightarrow>
     snd (run_main w s) = 1 \<and> launched (fst (run_main w s)) = launched s"
  by (simp add: run_main_status run_main_NoFile)

theorem missing_dotenv_is_fatal_witness:
  "dotenv no_dotenv = NoFile \<and> snd (run_main no_dotenv fresh) = 1
     \<and> launched (fst (run_main no_dotenv fresh)) = []"
proof -
  have h: "dotenv no_dotenv = NoFile" by (simp add: no_dotenv_def)
  have l: "launched fresh = []" by (simp add: fresh_def)
  show ?thesis using h missing_dotenv_is_fatal [OF h, of fresh] l by simp
qed

subsection \<open>The exit status\<close>

text \<open>
  Claim C1, as the script has it. The exit status is 0 exactly when the code directory
  exists and can be entered, the activation script and \<^verbatim>\<open>.env\<close> exist, and the last line
  of the log could be appended; it is 1 otherwise. The status of \<^verbatim>\<open>python3\<close> plays no
  part: the wrapper never looks at it. The statement is about installations that have
  their \<^verbatim>\<open>main.py\<close>.
\<close>

theorem exit_status:
  "is_file w (CODE_DIR @ ''/main.py'') \<Longrightarrow>
     snd (run_main w s) =
       (if is_dir w CODE_DIR \<and> chdir_ok w CODE_DIR \<and> is_file w (CODE_DIR @ ''/venv/bin/activate'')
           \<and> dotenv w \<noteq> NoFile
           \<and> appendable w (var (fst (run_main w s)) ''CRON_LOG_FILE'')
        then 0 else 1)"
  by (rule run_main_status)

theorem exit_status_witness:
  "is_file installed (CODE_DIR @ ''/main.py'') \<and> snd (run_main installed fresh) = 0"
proof -
  have h: "is_file installed (CODE_DIR @ ''/main.py'')" by simp
  show ?thesis using h exit_status [OF h, of fresh] by (simp add: log_var_installed)
qed

text \<open>
  Claim C1 as stated fails: with everything in place and a pipeline that ends with
  status 1, \<^verbatim>\<open>main.py\<close> is run, fails, and the wrapper still exits with 0.
\<close>

theorem failed_pipeline_exits_zero:
  "snd (python3 failing_pipeline 0 (CODE_DIR @ ''/main.py'')) = 1
   \<and> launched (fst (run_main failing_pipeline fresh)) = [CODE_DIR @ ''/main.py'']
   \<and> snd (run_main failing_pipeline fresh) = 0"
proof -
  have a: "launched (fst (run_main failing_pipeline fresh)) = [CODE_DIR @ ''/main.py'']"
    by (simp add: script_defs run_script_launched scripts_to_run_def builtin_defs char_class_defs)
  have b: "var (fst (run_main failing_pipeline fresh)) ''CRON_LOG_FILE'' = log_file"
    by (simp add: script_defs builtin_defs char_class_defs)
  have c: "snd (run_main failing_pipeline fresh) = 0"
    by (simp add: run_main_status b)
  show ?thesis using a c by simp
qed

subsection \<open>How often the pipeline runs\<close>

text \<open>With \<^verbatim>\<open>scripts_to_run\<close> unset when the array is built, the loop has the one element
  \<^verbatim>\<open>main.py\<close>, and \<^verbatim>\<open>python3\<close> is started once or not at all, whatever it returns.\<close>

lemma run_scripts_once:
  "vars (shell_of s) ''scripts_to_run'' = None \<Longrightarrow>
     launched (fst (run_scripts w s)) = launched s
     \<or> launched (fst (run_scripts w s)) = launched s @ [var s ''CODE_DIR'' @ ''/main.py'']"
  by (simp add: scripts_to_run_def run_script_launched)

text \<open>
  Claim C7 at an input where the script breaks it: a \<^verbatim>\<open>.env\<close> with the line
  \<^verbatim>\<open>scripts_to_run=main.py\<close>. The exported variable is still there when
  \<^verbatim>\<open>scripts_to_run+=("main.py")\<close> appends to it, the array has two elements, and
  \<^verbatim>\<open>main.py\<close> is started twice in one invocation.
\<close>

theorem preset_list_runs_twice:
  "launched (fst (run_main preset_list fresh)) = [CODE_DIR @ ''/main.py'', CODE_DIR @ ''/main.py'']"
  by (simp add: script_defs run_script_launched scripts_to_run_def builtin_defs char_class_defs)

subsection \<open>Backslash escapes\<close>

lemma ansicstr_cons: "c \<noteq> BSL \<Longrightarrow> ansicstr u (c # s) = cons_out [c] (ansicstr u s)"
  by (cases s) (simp_all add: cons_out_def)

lemma ansicstr_bsn: "ansicstr u (BSL # CHR ''n'' # s) = cons_out [NL] (ansicstr u s)"
  by simp

lemma ansicstr_plain: "BSL \<notin> set s \<Longrightarrow> ansicstr u s = (s, False)"
proof (induction s)
  case Nil
  show ?case by simp
next
  case (Cons c s)
  then have "c \<noteq> BSL" and "ansicstr u s = (s, False)" by auto
  then show ?case by (simp add: ansicstr_cons cons_out_def del: ansicstr.simps)
qed

lemma echo_e_marker:
  "BSL \<notin> set t \<Longrightarrow> echo_e u (bsn @ bsn @ t) = [NL, NL] @ t @ [NL]"
proof -
  assume "BSL \<notin> set t"
  then have "ansicstr u t = (t, False)" by (rule ansicstr_plain)
  then have "ansicstr u (bsn @ bsn @ t) = ([NL, NL] @ t, False)"
    by (simp only: append.simps ansicstr_bsn cons_out_def fst_conv snd_conv)
  then show ?thesis by (simp add: echo_e_def)
qed

lemma start_marker_echo:
  "BSL \<notin> set d \<Longrightarrow>
     echo_e u (BSL # CHR ''n'' # BSL # CHR ''n'' # d @ '' - Starting run_main.sh'') = start_marker d"
  using echo_e_marker [of "d @ '' - Starting run_main.sh''" u] by (simp add: start_marker_def)

lemma end_marker_echo:
  "BSL \<notin> set d \<Longrightarrow>
     echo_e u (BSL # CHR ''n'' # BSL # CHR ''n'' # d @ '' - Finished run_main.sh'') = end_marker d"
  using echo_e_marker [of "d @ '' - Finished run_main.sh''" u] by (simp add: end_marker_def)

subsection \<open>The start and end markers\<close>

lemma run_scripts_end:
  assumes app: "appendable w (var s ''CRON_LOG_FILE'')"
    and dates: "\<forall>utc n. BSL \<notin> set (date_out w utc n)"
  shows "\<exists>mid n post. files (fst (run_scripts w s)) (var s ''CRON_LOG_FILE'')
           = files s (var s ''CRON_LOG_FILE'') @ mid @ end_marker (date_out w True n) @ post"
proof -
  let ?L = "var s ''CRON_LOG_FILE''"
  let ?s1 = "for_loop w (scripts_to_run s) s"
  obtain mid where mid: "files ?s1 ?L = files s ?L @ mid"
    using for_loop_prefix [of s ?L w "scripts_to_run s"] by (auto elim: prefixE)
  have d: "BSL \<notin> set (date_out w True (date_calls ?s1))" using dates by blast
  have "files (fst (run_scripts w s)) ?L
          = files ?s1 ?L @ end_marker (date_out w True (date_calls ?s1))
              @ echo_e (u32cconv w) end_banner"
    using app d
    by (simp add: run_scripts_def Let_def split_def echo_log_files end_marker_echo
          del: ansicstr.simps)
  with mid show ?thesis by auto
qed

lemma load_env_end:
  assumes env: "dotenv w \<noteq> NoFile"
    and log: "var (fst (load_env w s)) ''CRON_LOG_FILE'' = L"
    and app: "appendable w L"
    and dates: "\<forall>utc n. BSL \<notin> set (date_out w utc n)"
  shows "\<exists>mid n post. files (fst (load_env w s)) L
           = files s L @ mid @ end_marker (date_out w True n) @ post"
proof (cases "dotenv w")
  case NoFile
  with env show ?thesis by simp
next
  case Unreadable
  with log have "var s ''CRON_LOG_FILE'' = L" by (simp add: load_env_def)
  with run_scripts_end [of w s] app dates Unreadable show ?thesis
    by (simp add: load_env_def)
next
  case (Content t)
  let ?s' = "s\<lparr>shell_of := env_loop w [] t (shell_of s)\<rparr>"
  from log Content have "var ?s' ''CRON_LOG_FILE'' = L" by (simp add: load_env_def)
  with run_scripts_end [of w ?s'] app dates Content show ?thesis
    by (simp add: load_env_def)
qed

lemma activate_venv_markers:
  assumes venv: "is_file w (var s ''CODE_DIR'' @ ''/venv/bin/activate'')"
    and env: "dotenv w \<noteq> NoFile"
    and log0: "var s ''CRON_LOG_FILE'' = L"
    and log: "var (fst (activate_venv w s)) ''CRON_LOG_FILE'' = L"
    and app: "appendable w L"
    and dates: "\<forall>utc n. BSL \<notin> set (date_out w utc n)"
  shows "\<exists>mid n post. files (fst (activate_venv w s)) L
           = files s L @ start_marker (date_out w False (date_calls s)) @ mid
               @ end_marker (date_out w True n) @ post"
proof -
  let ?s2 = "echo_log w (bsn @ bsn @ fst (date_sub w False s) @ '' - Starting run_main.sh'')
               (snd (date_sub w False s))"
  let ?s3 = "set_var ''PYTHON_VENV'' (var ?s2 ''CODE_DIR'' @ ''/venv/bin/activate'') ?s2"
  let ?s4 = "echo_log w (bsn @ bsn @ ''Activating virtual environment: '' @ var ?s3 ''PYTHON_VENV'') ?s3"
  let ?s5 = "?s4\<lparr>shell_of := activate w (shell_of ?s4)\<rparr>"
  have run: "activate_venv w s = load_env w ?s5"
    using venv by (simp add: activate_venv_def Let_def split_def)
  have d: "BSL \<notin> set (date_out w False (date_calls s))" using dates by blast
  let ?A = "echo_e (u32cconv w) (bsn @ bsn @ ''Activating virtual environment: '' @ var ?s3 ''PYTHON_VENV'')"
  have f5: "files ?s5 L = files s L @ start_marker (date_out w False (date_calls s)) @ ?A"
    using log0 app d by (simp add: echo_log_files start_marker_echo del: ansicstr.simps)
  from log run have "var (fst (load_env w ?s5)) ''CRON_LOG_FILE'' = L" by simp
  from load_env_end [OF env this app dates]
  obtain mid n post where
    e: "files (fst (load_env w ?s5)) L = files ?s5 L @ mid @ end_marker (date_out w True n) @ post"
    by blast
  have "files (fst (activate_venv w s)) L
          = files s L @ start_marker (date_out w False (date_calls s)) @ (?A @ mid)
              @ end_marker (date_out w True n) @ post"
    unfolding run e f5 by (simp only: append_assoc)
  then show ?thesis by blast
qed

text \<open>
  Claim C6, as the script has it. An invocation that gets past the three checks (code
  directory, activation script, \<^verbatim>\<open>.env\<close>) appends to the log, in this order, the
  timestamped start marker and the timestamped end marker. This needs the log to be
  appendable, \<^verbatim>\<open>$CRON_LOG_FILE\<close> to name the same file at the end (neither the activation
  script nor \<^verbatim>\<open>.env\<close> redefines it), and a \<^verbatim>\<open>date\<close> that prints no backslash.
\<close>

theorem markers_of_a_completed_run:
  assumes "is_dir w CODE_DIR" and "chdir_ok w CODE_DIR"
    and "is_file w (CODE_DIR @ ''/venv/bin/activate'')" and "dotenv w \<noteq> NoFile"
    and "appendable w log_file"
    and "var (fst (run_main w s)) ''CRON_LOG_FILE'' = log_file"
    and "\<forall>utc n. BSL \<notin> set (date_out w utc n)"
  shows "\<exists>pre mid n post. files (fst (run_main w s)) log_file
           = files s log_file @ pre @ start_marker (date_out w False (date_calls s)) @ mid
               @ end_marker (date_out w True n) @ post"
proof -
  let ?s2 = "set_var ''CRON_LOG_FILE'' (var (set_var ''CODE_DIR'' CODE_DIR s) ''CODE_DIR'' @ ''/run_main.log'')
               (set_var ''CODE_DIR'' CODE_DIR s)"
  let ?s3 = "echo_log w start_banner ?s2"
  have run: "run_main w s = activate_venv w ?s3"
    using assms(1,2) by (simp add: run_main_def Let_def)
  have f3: "files ?s3 log_file = files s log_file @ echo_e (u32cconv w) start_banner"
    using assms(5) by (simp add: echo_log_files log_file_def del: ansicstr.simps)
  have v: "is_file w (var ?s3 ''CODE_DIR'' @ ''/venv/bin/activate'')" using assms(3) by simp
  have l0: "var ?s3 ''CRON_LOG_FILE'' = log_file" by (simp add: log_file_def)
  have l1: "var (fst (activate_venv w ?s3)) ''CRON_LOG_FILE'' = log_file"
    using assms(6) run by simp
  have dc: "date_calls ?s3 = date_calls s" by simp
  from activate_venv_markers [OF v assms(4) l0 l1 assms(5) assms(7)]
  obtain mid n post where
    e: "files (fst (activate_venv w ?s3)) log_file
       = files ?s3 log_file @ start_marker (date_out w False (date_calls ?s3)) @ mid
           @ end_marker (date_out w True n) @ post"
    by blast
  have "files (fst (run_main w s)) log_file
       = files s log_file @ echo_e (u32cconv w) start_banner
           @ start_marker (date_out w False (date_calls s)) @ mid
           @ end_marker (date_out w True n) @ post"
    unfolding run e f3 dc by (simp only: append_assoc)
  then show ?thesis by blast
qed

theorem markers_of_a_completed_run_witness:
  "is_dir installed CODE_DIR \<and> chdir_ok installed CODE_DIR
   \<and> is_file installed (CODE_DIR @ ''/venv/bin/activate'') \<and> dotenv installed \<noteq> NoFile
   \<and> appendable installed log_file
   \<and> var (fst (run_main installed fresh)) ''CRON_LOG_FILE'' = log_file
   \<and> (\<forall>utc n. BSL \<notin> set (date_out installed utc n))
   \<and> (\<exists>pre mid n post. files (fst (run_main installed fresh)) log_file
         = pre @ start_marker ''2026-01-01 05:30:00'' @ mid
             @ end_marker (date_out installed True n) @ post)"
proof -
  have h1: "is_dir installed CODE_DIR" and h2: "chdir_ok installed CODE_DIR"
    and h3: "is_file installed (CODE_DIR @ ''/venv/bin/activate'')"
    and h4: "dotenv installed \<noteq> NoFile" and h5: "appendable installed log_file"
    by simp_all
  have h7: "\<forall>utc n. BSL \<notin> set (date_out installed utc n)" by (simp add: installed_def)
  have d: "date_out installed False (date_calls fresh) = ''2026-01-01 05:30:00''"
    by (simp add: installed_def)
  from markers_of_a_completed_run [OF h1 h2 h3 h4 h5 log_var_installed h7]
  have "\<exists>pre mid n post. files (fst (run_main installed fresh)) log_file
         = pre @ start_marker ''2026-01-01 05:30:00'' @ mid
             @ end_marker (date_out installed True n) @ post"
    unfolding d by simp
  with h1 h2 h3 h4 h5 h7 log_var_installed show ?thesis by blast
qed

lemma no_venv_fields [simp]:
  "is_dir no_venv p = (p = CODE_DIR)" "chdir_ok no_venv p = (p = CODE_DIR)"
  "is_file no_venv p = (p = CODE_DIR @ ''/main.py'')"
  "appendable no_venv p = (p = log_file)"
  "u32cconv no_venv n = []"
  "date_out no_venv utc n = (if utc then ''2026-01-01 00:00:00'' else ''2026-01-01 05:30:00'')"
  by (simp_all add: no_venv_def installed_def)

lemma start_banner_echo:
  "echo_e u start_banner = [NL, NL, NL] @ dashes @ '' CRON START LOGS '' @ dashes @ [NL, NL]"
  by (simp add: echo_e_def start_banner_def dashes_def cons_out_def)

lemma no_venv_log:
  "files (fst (run_main no_venv fresh)) log_file =
     [NL, NL, NL] @ dashes @ '' CRON START LOGS '' @ dashes @ [NL, NL]
     @ start_marker ''2026-01-01 05:30:00''
     @ [NL, NL] @ ''Virtual environment activation script not found at ''
     @ CODE_DIR @ ''/venv/bin/activate!'' @ [NL]"
proof -
  have a: "echo_e u (bsn @ bsn @ ''Virtual environment activation script not found at ''
             @ CODE_DIR @ ''/venv/bin/activate'' @ ''!'')
           = [NL, NL] @ ''Virtual environment activation script not found at ''
             @ CODE_DIR @ ''/venv/bin/activate!'' @ [NL]" for u
    using echo_e_marker [of "''Virtual environment activation script not found at ''
             @ CODE_DIR @ ''/venv/bin/activate'' @ ''!''" u]
    by (simp add: CODE_DIR_def)
  have b: "echo_e u (bsn @ bsn @ ''2026-01-01 05:30:00'' @ '' - Starting run_main.sh'')
           = start_marker ''2026-01-01 05:30:00''" for u
    using start_marker_echo [of "''2026-01-01 05:30:00''" u] by simp
  show ?thesis
    using a b
    by (simp add: script_defs echo_log_files start_banner_echo del: ansicstr.simps)
qed

text \<open>
  Claim C6 as stated fails for an invocation that ends in a fatal error: without the
  activation script the wrapper exits with status 1 and the log never receives the
  end marker.
\<close>

theorem fatal_run_has_no_end_marker:
  "snd (run_main no_venv fresh) = 1
   \<and> \<not> sublist '' - Finished run_main.sh'' (files (fst (run_main no_venv fresh)) log_file)"
proof -
  have "snd (run_main no_venv fresh) = 1" by (simp add: run_main_status)
  moreover have "\<not> sublist '' - Finished run_main.sh'' (files (fst (run_main no_venv fresh)) log_file)"
    unfolding no_venv_log
    by (simp add: dashes_def start_marker_def CODE_DIR_def sublist_code)
  ultimately show ?thesis by simp
qed

section \<open>Proofs about the \<^verbatim>\<open>.env\<close> loop\<close>

subsection \<open>The loop, line by line\<close>

text \<open>
  On a file made of lines that each end in a newline, followed by text without one, the
  loop runs its body once per line, in order, and leaves in \<open>key\<close> and \<open>value\<close> what the
  last, failing \<^verbatim>\<open>read\<close> found after the final newline.
\<close>

lemma env_loop_append:
  "NL \<notin> set l \<Longrightarrow> env_loop w cur (l @ rest) sh = env_loop w (cur @ l) rest sh"
  by (induction l arbitrary: cur) auto

lemma env_loop_lines:
  "list_all (\<lambda>l. NL \<notin> set l) ls \<Longrightarrow> NL \<notin> set rest \<Longrightarrow>
     env_loop w [] (concat (map (\<lambda>l. l @ [NL]) ls) @ rest) sh
       = read_into rest (foldl (\<lambda>sh l. env_line w l sh) sh ls)"
proof (induction ls arbitrary: sh)
  case Nil
  then show ?case using env_loop_append [of rest w "[]" "[]" sh] by simp
next
  case (Cons l ls)
  then have l: "NL \<notin> set l" and ls: "list_all (\<lambda>l. NL \<notin> set l) ls" by simp_all
  have "env_loop w [] ((l @ [NL]) @ concat (map (\<lambda>l. l @ [NL]) ls) @ rest) sh
          = env_loop w l (NL # concat (map (\<lambda>l. l @ [NL]) ls) @ rest) sh"
    using env_loop_append [OF l, of w "[]"] by simp
  also have "\<dots> = env_loop w [] (concat (map (\<lambda>l. l @ [NL]) ls) @ rest) (env_line w l sh)"
    by simp
  also have "\<dots> = read_into rest (foldl (\<lambda>sh l. env_line w l sh) (env_line w l sh) ls)"
    using Cons.IH [OF ls Cons.prems(2)] .
  finally show ?case by simp
qed

subsection \<open>One line\<close>

text \<open>
  What \<^verbatim>\<open>read\<close> makes of a line with a key and a separator: the value is the rest of the
  line, except that a rest with one \<^verbatim>\<open>=\<close> only, at its very end, loses it.
\<close>

lemma get_word_plain: "EQ \<notin> set t \<Longrightarrow> get_word t = (t, [])"
  by (induction t) (auto simp: get_word_def)

lemma get_word_sep: "EQ \<notin> set t \<Longrightarrow> get_word (t @ EQ # r) = (t, r)"
  by (induction t) (auto simp: get_word_def)

lemma split_at_separator:
  "EQ \<in> set v \<Longrightarrow> \<exists>t r. v = t @ EQ # r \<and> EQ \<notin> set t"
  by (metis split_list_first)

lemma read_key_value_split:
  assumes k: "EQ \<notin> set k" "k \<noteq> []" and nul: "CHR 0x00 \<notin> set k" "CHR 0x00 \<notin> set v"
  shows "read_key_value (k @ EQ # v)
           = (k, if v \<noteq> [] \<and> last v = EQ \<and> EQ \<notin> set (butlast v) then butlast v else v)"
proof -
  have nonul: "filter (\<lambda>c. c \<noteq> CHR 0x00) xs = xs" if "CHR 0x00 \<notin> set xs" for xs
    using that by (induction xs) auto
  have w: "get_word (k @ EQ # v) = (k, v)" using k(1) by (rule get_word_sep)
  have key: "read_key_value (k @ EQ # v)
               = (k, if v = [] then [] else if snd (get_word v) = [] then fst (get_word v) else v)"
    using k(2) by (simp add: read_key_value_def nonul [OF nul(1)] nonul [OF nul(2)] w Let_def split_def)
  show ?thesis
  proof (cases "EQ \<in> set v")
    case False
    then have "get_word v = (v, [])" by (rule get_word_plain)
    moreover from False have "\<not> (v \<noteq> [] \<and> last v = EQ)"
      by (metis last_in_set)
    ultimately show ?thesis using key by auto
  next
    case True
    then obtain t r where v: "v = t @ EQ # r" and t: "EQ \<notin> set t"
      using split_at_separator by blast
    then have g: "get_word v = (t, r)" by (simp add: get_word_sep)
    show ?thesis
    proof (cases "r = []")
      case True
      with v t have "butlast v = t" "last v = EQ" "v \<noteq> []" by simp_all
      with g True t key show ?thesis by simp
    next
      case False
      with v have "EQ \<in> set (butlast v)" by (simp add: butlast_append)
      with g False key v show ?thesis by simp
    qed
  qed
qed


lemma read_into_fields [simp]:
  "expand (read_into line sh) ''key'' = fst (read_key_value line)"
  "expand (read_into line sh) ''value'' = snd (read_key_value line)"
  "exported (read_into line sh) = exported sh"
  by (simp_all add: read_into_def split_def assign_def expand_def Let_def)









text \<open>
  Claim C10 at an input where the script breaks it. The line \<^verbatim>\<open>KEY=a=b\<close> keeps its
  second \<^verbatim>\<open>=\<close>, but on the line \<^verbatim>\<open>KEY=a=\<close> the value \<^verbatim>\<open>a=\<close> loses it: what is left
  after the key is a single word followed by one separator, and \<^verbatim>\<open>read\<close> then assigns
  the word alone. \<^verbatim>\<open>KEY\<close> is exported with the value \<^verbatim>\<open>a\<close>.
\<close>

theorem trailing_separator_is_dropped:
  "read_key_value ''KEY=a=b'' = (''KEY'', ''a=b'')
   \<and> read_key_value ''KEY=a='' = (''KEY'', ''a'')
   \<and> environment (env_line installed ''KEY=a='' (shell_of fresh)) ''KEY'' = Some ''a''"
  by (simp add: builtin_defs char_class_defs environment_def Let_def)

section \<open>Proofs about the notebook\<close>

lemma execute_try_ok:
  "try_block db k q = (Inr df, sent) \<Longrightarrow> returned (execute_sql_query db k q) = Inr df"
  by (simp add: execute_sql_query_def)

lemma execute_try_error:
  "try_block db k q = (Inl (Exception cls msg), sent) \<Longrightarrow>
     returned (execute_sql_query db k q) = Inr (DataFrame [] [])"
  by (simp add: execute_sql_query_def)

lemma execute_never_raises_exception:
  "returned (execute_sql_query db k q) \<noteq> Inl (Exception cls msg)"
  by (simp add: execute_sql_query_def split: prod.splits sum.splits exc.splits)

text \<open>
  Claim C8. For every query, \<^verbatim>\<open>__execute_sql_query\<close> returns the query's result table
  when connecting, running the query and closing the connection all succeed; it
  returns the empty DataFrame when connecting or running the query raises an error
  (an exception of class \<^verbatim>\<open>Exception\<close>); and it never lets such an exception escape.
\<close>

theorem execute_sql_query_returns_a_frame:
  "(g_engine k = Some eng \<and> connect db eng = Inr c \<and> read_sql_query db q c = Inr df
      \<and> close db c = None \<longrightarrow> returned (execute_sql_query db k q) = Inr df)
   \<and> (g_engine k = Some eng \<and> connect db eng = Inl (Exception cls msg) \<longrightarrow>
        returned (execute_sql_query db k q) = Inr (DataFrame [] []))
   \<and> (g_engine k = Some eng \<and> connect db eng = Inr c
        \<and> read_sql_query db q c = Inl (Exception cls msg) \<and> close db c = None \<longrightarrow>
        returned (execute_sql_query db k q) = Inr (DataFrame [] []))
   \<and> returned (execute_sql_query db k q) \<noteq> Inl (Exception cls' msg')"
proof -
  have a: "returned (execute_sql_query db k q) = Inr df"
    if "g_engine k = Some eng" "connect db eng = Inr c" "read_sql_query db q c = Inr df"
      "close db c = None"
    using that by (intro execute_try_ok [of _ _ _ _ "[q]"]) (simp add: try_block_def)
  have b: "returned (execute_sql_query db k q) = Inr (DataFrame [] [])"
    if "g_engine k = Some eng" "connect db eng = Inl (Exception cls msg)"
    using that by (intro execute_try_error [of _ _ _ cls msg "[]"]) (simp add: try_block_def)
  have c: "returned (execute_sql_query db k q) = Inr (DataFrame [] [])"
    if "g_engine k = Some eng" "connect db eng = Inr c"
      "read_sql_query db q c = Inl (Exception cls msg)" "close db c = None"
    using that by (intro execute_try_error [of _ _ _ cls msg "[q]"]) (simp add: try_block_def)
  from a b c execute_never_raises_exception [of db k q cls' msg'] show ?thesis by blast
qed

theorem execute_sql_query_returns_a_frame_witness:
  "g_engine bound_kernel = Some (Engine (py ''postgresql://db''))
   \<and> connect db_up (Engine (py ''postgresql://db'')) = Inr (Connection (Engine (py ''postgresql://db'')))
   \<and> read_sql_query db_up (py ''select 1'') (Connection (Engine (py ''postgresql://db''))) = Inr plays
   \<and> close db_up (Connection (Engine (py ''postgresql://db''))) = None
   \<and> returned (execute_sql_query db_up bound_kernel (py ''select 1'')) = Inr plays
   \<and> connect db_down (Engine (py ''postgresql://db''))
       = Inl (Exception ''OperationalError'' (py ''connection refused''))
   \<and> returned (execute_sql_query db_down bound_kernel (py ''select 1'')) = Inr (DataFrame [] [])
   \<and> connect db_bad_query (Engine (py ''postgresql://db'')) = Inr (Connection (Engine (py ''postgresql://db'')))
   \<and> read_sql_query db_bad_query (py ''selec 1'') (Connection (Engine (py ''postgresql://db'')))
       = Inl (Exception ''ProgrammingError'' (py ''syntax error''))
   \<and> close db_bad_query (Connection (Engine (py ''postgresql://db''))) = None
   \<and> returned (execute_sql_query db_bad_query bound_kernel (py ''selec 1'')) = Inr (DataFrame [] [])"
proof -
  let ?e = "Engine (py ''postgresql://db'')"
  have k: "g_engine bound_kernel = Some ?e" by (simp add: bound_kernel_def)
  have u1: "connect db_up ?e = Inr (Connection ?e)"
    and u2: "read_sql_query db_up (py ''select 1'') (Connection ?e) = Inr plays"
    and u3: "close db_up (Connection ?e) = None"
    by (simp_all add: db_up_def)
  have d1: "connect db_down ?e = Inl (Exception ''OperationalError'' (py ''connection refused''))"
    by (simp add: db_down_def db_up_def)
  have b1: "connect db_bad_query ?e = Inr (Connection ?e)"
    and b2: "read_sql_query db_bad_query (py ''selec 1'') (Connection ?e)
               = Inl (Exception ''ProgrammingError'' (py ''syntax error''))"
    and b3: "close db_bad_query (Connection ?e) = None"
    by (simp_all add: db_bad_query_def db_up_def)
  from execute_sql_query_returns_a_frame [of bound_kernel ?e db_up "Connection ?e" "py ''select 1''" plays]
    k u1 u2 u3
  have r1: "returned (execute_sql_query db_up bound_kernel (py ''select 1'')) = Inr plays" by blast
  from execute_sql_query_returns_a_frame
    [of bound_kernel ?e db_down _ _ _ "''OperationalError''" "py ''connection refused''"] k d1
  have r2: "returned (execute_sql_query db_down bound_kernel (py ''select 1'')) = Inr (DataFrame [] [])"
    by blast
  from execute_sql_query_returns_a_frame
    [of bound_kernel ?e db_bad_query "Connection ?e" "py ''selec 1''" _ "''ProgrammingError''" "py ''syntax error''"]
    k b1 b2 b3
  have r3: "returned (execute_sql_query db_bad_query bound_kernel (py ''selec 1'')) = Inr (DataFrame [] [])"
    by blast
  from k u1 u2 u3 r1 d1 r2 b1 b2 b3 r3 show ?thesis by blast
qed

text \<open>
  Claim C9. In a freshly started notebook, if \<^verbatim>\<open>DATABASE_URL\<close> or \<^verbatim>\<open>SCHEMA_NAME\<close> is not
  set, the set-up cell raises (\<^verbatim>\<open>AttributeError\<close>, from calling \<^verbatim>\<open>strip\<close> on \<^verbatim>\<open>None\<close>)
  before it creates the engine, and a later call of \<^verbatim>\<open>__execute_sql_query\<close> sends no
  query to the database.
\<close>

theorem unset_variable_stops_setup:
  "environ ''DATABASE_URL'' = None \<or> environ ''SCHEMA_NAME'' = None \<Longrightarrow>
     fst (setup_cell db environ fresh_kernel) = Some no_strip
     \<and> g_engine (snd (setup_cell db environ fresh_kernel)) = None
     \<and> queries (execute_sql_query db (snd (setup_cell db environ fresh_kernel)) q) = []"
  by (auto simp: setup_cell_def getenv_strip_def fresh_kernel_def execute_sql_query_def
        try_block_def name_error_def Let_def split: option.splits)

theorem unset_variable_stops_setup_witness:
  "([''DATABASE_URL'' \<mapsto> py ''postgresql://db''] ''DATABASE_URL'' = None
      \<or> [''DATABASE_URL'' \<mapsto> py ''postgresql://db''] ''SCHEMA_NAME'' = None)
   \<and> fst (setup_cell db_up [''DATABASE_URL'' \<mapsto> py ''postgresql://db''] fresh_kernel) = Some no_strip
   \<and> queries (execute_sql_query db_up
         (snd (setup_cell db_up [''DATABASE_URL'' \<mapsto> py ''postgresql://db''] fresh_kernel))
         (py ''select 1'')) = []"
proof -
  have h: "[''DATABASE_URL'' \<mapsto> py ''postgresql://db''] ''DATABASE_URL'' = None
      \<or> [''DATABASE_URL'' \<mapsto> py ''postgresql://db''] ''SCHEMA_NAME'' = None"
    by simp
  from unset_variable_stops_setup [OF h, of db_up "py ''select 1''"] h show ?thesis by blast
qed

section \<open>Proofs about the Loader\<close>

lemma insert_or_ignore_keys:
  "event_key ` set (table (insert_or_ignore r e)) = insert (event_key e) (event_key ` set (table r))"
  by (auto simp: insert_or_ignore_def)

lemma insert_or_ignore_distinct:
  "distinct (map event_key (table r)) \<Longrightarrow> distinct (map event_key (table (insert_or_ignore r e)))"
  by (auto simp: insert_or_ignore_def)

lemma load_keys:
  "event_key ` set (table (foldl insert_or_ignore r es))
     = event_key ` set (table r) \<union> event_key ` set es"
  by (induction es arbitrary: r) (simp_all add: insert_or_ignore_keys)

lemma load_distinct:
  "distinct (map event_key (table r)) \<Longrightarrow>
     distinct (map event_key (table (foldl insert_or_ignore r es)))"
  by (induction es arbitrary: r) (simp_all add: insert_or_ignore_distinct)

lemma load_known:
  "set (map event_key es) \<subseteq> set (map event_key (table r)) \<Longrightarrow>
     foldl insert_or_ignore r es = r\<lparr>skipped := skipped r + length es\<rparr>"
proof (induction es arbitrary: r)
  case Nil
  show ?case by simp
next
  case (Cons e es)
  then have e: "event_key e \<in> set (map event_key (table r))" by simp
  then have step: "insert_or_ignore r e = r\<lparr>skipped := Suc (skipped r)\<rparr>"
    by (simp add: insert_or_ignore_def)
  from Cons.prems have "set (map event_key es) \<subseteq> set (map event_key (table (r\<lparr>skipped := Suc (skipped r)\<rparr>)))"
    by simp
  from Cons.IH [OF this] step show ?case by simp
qed

lemma one_row_per_key:
  "distinct (map f xs) \<Longrightarrow> y \<in> set xs \<Longrightarrow> length (filter (\<lambda>x. f x = f y) xs) = 1"
proof (induction xs)
  case Nil
  then show ?case by simp
next
  case (Cons x xs)
  show ?case
  proof (cases "f x = f y")
    case True
    with Cons.prems(1) have "f y \<notin> f ` set xs" by simp
    then have "filter (\<lambda>z. f z = f y) xs = []"
      by (auto simp: filter_empty_conv image_iff)
    with True show ?thesis by simp
  next
    case False
    with Cons show ?thesis by auto
  qed
qed

text \<open>
  Claim C2. Starting from a table with at most one row per (played_at, track_id), a
  second load of the same Play Events inserts nothing and leaves the table as the
  first load left it: without duplicate keys, and with exactly one row for the key of
  each loaded event.
\<close>

theorem loader_idempotent:
  assumes "distinct (map event_key rows)" and "loader True events rows = Inr r"
  shows "loader True events (table r) = Inr \<lparr>table = table r, inserted = 0, skipped = length events\<rparr>
         \<and> distinct (map event_key (table r))
         \<and> list_all (\<lambda>e. length (filter (\<lambda>x. event_key x = event_key e) (table r)) = 1) events"
proof -
  let ?r0 = "\<lparr>table = rows, inserted = 0, skipped = 0\<rparr>"
  from assms(2) have r: "r = foldl insert_or_ignore ?r0 events" by (simp add: loader_def)
  have d: "distinct (map event_key (table r))"
    unfolding r using assms(1) by (intro load_distinct) simp
  have keys: "set (map event_key events) \<subseteq> set (map event_key (table r))"
    unfolding r by (simp add: load_keys)
  have again: "loader True events (table r)
                 = Inr \<lparr>table = table r, inserted = 0, skipped = length events\<rparr>"
    using load_known [of events "\<lparr>table = table r, inserted = 0, skipped = 0\<rparr>"] keys
    by (simp add: loader_def)
  have once: "length (filter (\<lambda>x. event_key x = event_key e) (table r)) = 1"
    if "e \<in> set events" for e
  proof -
    from that keys obtain y where y: "y \<in> set (table r)" "event_key y = event_key e" by auto
    from one_row_per_key [OF d y(1)] y(2) show ?thesis by simp
  qed
  from d again once show ?thesis by (simp add: list_all_iff)
qed

theorem loader_idempotent_witness:
  "distinct (map event_key [play ''09:00'' ''t1''])
   \<and> loader True [play ''09:00'' ''t1'', play ''09:05'' ''t1'', play ''09:05'' ''t1''] [play ''09:00'' ''t1'']
       = Inr \<lparr>table = [play ''09:00'' ''t1'', play ''09:05'' ''t1''], inserted = 1, skipped = 2\<rparr>
   \<and> loader True [play ''09:00'' ''t1'', play ''09:05'' ''t1'', play ''09:05'' ''t1'']
         [play ''09:00'' ''t1'', play ''09:05'' ''t1'']
       = Inr \<lparr>table = [play ''09:00'' ''t1'', play ''09:05'' ''t1''], inserted = 0, skipped = 3\<rparr>"
proof -
  have h1: "distinct (map event_key [play ''09:00'' ''t1''])" by simp
  have h2: "loader True [play ''09:00'' ''t1'', play ''09:05'' ''t1'', play ''09:05'' ''t1''] [play ''09:00'' ''t1'']
       = Inr \<lparr>table = [play ''09:00'' ''t1'', play ''09:05'' ''t1''], inserted = 1, skipped = 2\<rparr>"
    by (simp add: loader_def insert_or_ignore_def event_key_def play_def)
  from loader_idempotent [OF h1 h2] h1 h2 show ?thesis by simp
qed

end
